theory Spec2Isabelle
  imports Complex_Main
begin

section \<open>JavaScript values\<close>

text \<open>
  The values the service handles are those \<^verbatim>\<open>JSON.parse\<close> produces, together with
  \<^verbatim>\<open>undefined\<close>, which the code meets when it reads a missing property
  (\<^verbatim>\<open>schema?.[0]\<close> of an empty array). An object is the list of its own enumerable
  properties in enumeration order (a JavaScript object has no two properties of one name;
  reading a property returns the first entry of that name). Numbers are modelled by their
  exact value. Inherited properties are not modelled, with one exception that the code
  calls itself: \<^verbatim>\<open>hasOwnProperty\<close> (see \<open>has_own_type\<close>).

  The key \<^verbatim>\<open>__proto__\<close> is outside the model, which takes it as an ordinary key. In
  JavaScript the assignment \<^verbatim>\<open>shape["__proto__"] = ...\<close> of the synthesizer adds no
  entry and replaces the prototype of \<^verbatim>\<open>shape\<close>, and the validation library then throws
  on every object it checks against that shape. The model is exact for templates in which
  no object has a property of that name (\<open>proto_free\<close> below).
\<close>

datatype jsval =
    Undefined
  | Null
  | Bool bool
  | Num real
  | Str string
  | Arr "jsval list"
  | Obj "(string \<times> jsval) list"

text \<open>
  A validation issue: where in the input it arose (the keys and indices from the root),
  what the schema expected there and what it received. The library renders the message
  text from the last two.
\<close>

datatype path_key = Key string | Idx nat

datatype issue = Issue (path: "path_key list") (expects: string) (received: jsval)

datatype js_error = TypeError | SyntaxError | ValiError "issue list" | OtherError

fun typeof :: "jsval \<Rightarrow> string" where
  "typeof Undefined = ''undefined''"
| "typeof Null = ''object''"
| "typeof (Bool b) = ''boolean''"
| "typeof (Num n) = ''number''"
| "typeof (Str s) = ''string''"
| "typeof (Arr xs) = ''object''"
| "typeof (Obj kvs) = ''object''"

fun isArray :: "jsval \<Rightarrow> bool" where
  "isArray (Arr xs) = True"
| "isArray v = False"

definition is_digit :: "char \<Rightarrow> bool" where
  "is_digit c = (c \<in> set ''0123456789'')"

definition digit_value :: "char \<Rightarrow> nat" where
  "digit_value c = of_char c - 48"

text \<open>A property name is an array index when it is the canonical decimal form of a number.\<close>

definition array_index :: "string \<Rightarrow> nat option" where
  "array_index k =
     (if k \<noteq> [] \<and> list_all is_digit k \<and> (hd k \<noteq> CHR ''0'' \<or> k = ''0'')
      then Some (foldl (\<lambda>n c. 10 * n + digit_value c) 0 k) else None)"

definition digit_char :: "nat \<Rightarrow> char" where
  "digit_char d = ''0123456789'' ! d"

text \<open>The decimal text of an index, as \<^verbatim>\<open>for ... in\<close> gives it for an array.\<close>

fun string_of_nat :: "nat \<Rightarrow> string" where
  "string_of_nat n =
     (case n div 10 of
        0 \<Rightarrow> [digit_char n]
      | Suc q \<Rightarrow> string_of_nat (Suc q) @ [digit_char (n mod 10)])"

declare string_of_nat.simps [simp del]

text \<open>
  \<open>get_prop v k\<close> is \<^verbatim>\<open>v[k]\<close>. On \<^verbatim>\<open>null\<close> and \<^verbatim>\<open>undefined\<close> it stands for the
  optional read \<^verbatim>\<open>v?.[k]\<close>: the code reads a property of a possibly absent value only
  through \<^verbatim>\<open>?.\<close>, or after a check that the value is an object.
\<close>

fun get_prop :: "jsval \<Rightarrow> string \<Rightarrow> jsval" where
  "get_prop (Obj kvs) k = (case map_of kvs k of Some v \<Rightarrow> v | None \<Rightarrow> Undefined)"
| "get_prop (Arr xs) k =
     (if k = ''length'' then Num (real (length xs))
      else case array_index k of
             Some i \<Rightarrow> if i < length xs then xs ! i else Undefined
           | None \<Rightarrow> Undefined)"
| "get_prop (Str s) k =
     (if k = ''length'' then Num (real (length s))
      else case array_index k of
             Some i \<Rightarrow> if i < length s then Str [s ! i] else Undefined
           | None \<Rightarrow> Undefined)"
| "get_prop v k = Undefined"

text \<open>The keys a \<^verbatim>\<open>for (const key in v)\<close> loop visits, in order.\<close>

fun for_in :: "jsval \<Rightarrow> string list" where
  "for_in (Obj kvs) = map fst kvs"
| "for_in (Arr xs) = map string_of_nat [0..<length xs]"
| "for_in (Str s) = map string_of_nat [0..<length s]"
| "for_in v = []"

section \<open>Type inference\<close>

definition types :: "string list" where
  "types = [''object'', ''array'', ''string'', ''boolean'', ''number'']"

text \<open>
  \<^verbatim>\<open>schema?.hasOwnProperty("type")\<close>. For \<^verbatim>\<open>null\<close> and \<^verbatim>\<open>undefined\<close> the optional
  chain yields \<^verbatim>\<open>undefined\<close>, which is falsy. On an object that has an own property named
  \<^verbatim>\<open>hasOwnProperty\<close>, that property (a JSON value, never a function) shadows the
  inherited method and the call throws a TypeError.
\<close>

fun has_own_type :: "jsval \<Rightarrow> js_error + bool" where
  "has_own_type (Obj kvs) =
     (if ''hasOwnProperty'' \<in> set (map fst kvs) then Inl TypeError
      else Inr (''type'' \<in> set (map fst kvs)))"
| "has_own_type v = Inr False"

definition inferDataType :: "jsval \<Rightarrow> js_error + string" where
  "inferDataType schema =
     (case has_own_type schema of
        Inl e \<Rightarrow> Inl e
      | Inr False \<Rightarrow> Inr (if isArray schema then ''array'' else typeof schema)
      | Inr True \<Rightarrow>
          (case get_prop schema ''type'' of
             Str t \<Rightarrow> Inr (if t \<in> set types then t else ''object'')
           | _ \<Rightarrow> Inr ''object''))"

section \<open>Schema synthesis\<close>

text \<open>
  The validation schemas that the code builds with the validation library:
  \<^verbatim>\<open>object\<close>, \<^verbatim>\<open>looseObject\<close>, \<^verbatim>\<open>array\<close>, \<^verbatim>\<open>nullable\<close>, \<^verbatim>\<open>string\<close>, \<^verbatim>\<open>boolean\<close>
  and \<^verbatim>\<open>number\<close>.
\<close>

datatype schema =
    SObject "(string \<times> schema) list"
  | SLooseObject "(string \<times> schema) list"
  | SArray schema
  | SNullable schema
  | SString
  | SBoolean
  | SNumber

text \<open>
  The assignments \<^verbatim>\<open>shape[key] = ...\<close> of the loop, in order; the first computation that
  throws ends the loop with its error.
\<close>

fun assign_all :: "(string \<times> (js_error + 'a)) list \<Rightarrow> js_error + (string \<times> 'a) list" where
  "assign_all [] = Inr []"
| "assign_all ((k, r) # rest) =
     (case r of
        Inl e \<Rightarrow> Inl e
      | Inr s \<Rightarrow> (case assign_all rest of Inl e \<Rightarrow> Inl e | Inr ss \<Rightarrow> Inr ((k, s) # ss)))"

lemma size_map_of:
  "map_of kvs k = Some v \<Longrightarrow> size v < size (Obj kvs)"
  by (induction kvs) (auto split: if_splits)

lemma size_get_prop_key:
  assumes "inferDataType schema = Inr ''object''" "key \<in> set (for_in schema)"
  shows "size (get_prop schema key) < size schema"
proof (cases schema)
  case (Obj kvs)
  with assms(2) have "map_of kvs key \<noteq> None"
    by (simp add: map_of_eq_None_iff)
  then obtain v where "map_of kvs key = Some v" by blast
  with Obj show ?thesis using size_map_of by simp
next
  case (Arr xs)
  with assms(1) show ?thesis by (simp add: inferDataType_def)
next
  case (Str s)
  with assms(1) show ?thesis by (simp add: inferDataType_def)
qed (use assms in simp_all)

lemma array_index_0 [simp]: "array_index ''0'' = Some 0"
  by (simp add: array_index_def is_digit_def digit_value_def)

lemma size_get_prop_0:
  assumes "inferDataType schema = Inr ''array''"
  shows "size (get_prop schema ''0'') < size schema"
proof (cases schema)
  case (Obj kvs)
  then show ?thesis using size_map_of [of kvs "''0''"]
    by (cases "map_of kvs ''0''") simp_all
next
  case (Arr xs)
  then show ?thesis
    by (cases xs) simp_all
qed (use assms in \<open>simp_all add: inferDataType_def\<close>)

function generateDynamicSchema :: "jsval \<Rightarrow> js_error + schema" where
  "generateDynamicSchema schema =
     (case inferDataType schema of
        Inl e \<Rightarrow> Inl e
      | Inr type \<Rightarrow>
          if type = ''object'' then
            map_sum id SObject
              (assign_all
                 (map (\<lambda>key. (key, generateDynamicSchema (get_prop schema key)))
                    (filter (\<lambda>key. key \<noteq> ''type'') (for_in schema))))
          else if type = ''array'' then
            map_sum id SArray (generateDynamicSchema (get_prop schema ''0''))
          else if type = ''string'' then Inr (SNullable SString)
          else if type = ''boolean'' then Inr (SNullable SBoolean)
          else if type = ''number'' then Inr (SNullable SNumber)
          else Inr (SNullable SString))"
  by pat_completeness auto
termination
  by (relation "measure size") (auto simp: size_get_prop_key size_get_prop_0)

declare generateDynamicSchema.simps [simp del]

section \<open>Validation\<close>

text \<open>
  The validation library's \<^verbatim>\<open>parse(schema, input)\<close>, for the schemas above: it runs the
  schema on the input, collects every issue, and throws a \<^verbatim>\<open>ValiError\<close> holding them
  when there is one; otherwise it returns the typed output. An object schema accepts
  every input that is truthy and of type \<^verbatim>\<open>"object"\<close> (arrays too), reads each of its
  entries from the input and leaves other keys out of the output; a loose object keeps
  them, except three reserved names. \<^verbatim>\<open>nullable\<close> accepts \<^verbatim>\<open>null\<close> and otherwise defers
  to the wrapped schema.
\<close>

fun is_object :: "jsval \<Rightarrow> bool" where
  "is_object (Obj kvs) = True"
| "is_object (Arr xs) = True"
| "is_object v = False"

definition under :: "path_key \<Rightarrow> issue \<Rightarrow> issue" where
  "under item i = Issue (item # path i) (expects i) (received i)"

fun run_schema :: "schema \<Rightarrow> jsval \<Rightarrow> issue list" where
  "run_schema SString v = (case v of Str s \<Rightarrow> [] | _ \<Rightarrow> [Issue [] ''string'' v])"
| "run_schema SNumber v = (case v of Num n \<Rightarrow> [] | _ \<Rightarrow> [Issue [] ''number'' v])"
| "run_schema SBoolean v = (case v of Bool b \<Rightarrow> [] | _ \<Rightarrow> [Issue [] ''boolean'' v])"
| "run_schema (SNullable s) v = (if v = Null then [] else run_schema s v)"
| "run_schema (SArray s) v =
     (case v of
        Arr xs \<Rightarrow> concat (map (\<lambda>(i, x). map (under (Idx i)) (run_schema s x)) (enumerate 0 xs))
      | _ \<Rightarrow> [Issue [] ''Array'' v])"
| "run_schema (SObject entries) v =
     (if is_object v
      then concat (map (\<lambda>(key, s). map (under (Key key)) (run_schema s (get_prop v key))) entries)
      else [Issue [] ''Object'' v])"
| "run_schema (SLooseObject entries) v =
     (if is_object v
      then concat (map (\<lambda>(key, s). map (under (Key key)) (run_schema s (get_prop v key))) entries)
      else [Issue [] ''Object'' v])"

definition is_allowed_key :: "string \<Rightarrow> bool" where
  "is_allowed_key key = (key \<notin> {''__proto__'', ''prototype'', ''constructor''})"

text \<open>The output of a successful run (it is returned only when there is no issue).\<close>

fun parsed_output :: "schema \<Rightarrow> jsval \<Rightarrow> jsval" where
  "parsed_output (SObject entries) v =
     Obj (map (\<lambda>(key, s). (key, parsed_output s (get_prop v key))) entries)"
| "parsed_output (SLooseObject entries) v =
     Obj (map (\<lambda>(key, s). (key, parsed_output s (get_prop v key))) entries @
          map (\<lambda>key. (key, get_prop v key))
            (filter (\<lambda>key. is_allowed_key key \<and> key \<notin> set (map fst entries)) (for_in v)))"
| "parsed_output (SArray s) v = (case v of Arr xs \<Rightarrow> Arr (map (parsed_output s) xs) | _ \<Rightarrow> v)"
| "parsed_output (SNullable s) v = (if v = Null then Null else parsed_output s v)"
| "parsed_output s v = v"

definition parse :: "schema \<Rightarrow> jsval \<Rightarrow> js_error + jsval" where
  "parse s v =
     (if run_schema s v = [] then Inr (parsed_output s v) else Inl (ValiError (run_schema s v)))"

section \<open>The retry driver\<close>

text \<open>
  \<^verbatim>\<open>RetryablePromise.retry(retries, executor)\<close>. The promise constructor runs the
  executor once; the promise is resolved or rejected when the executor calls
  \<^verbatim>\<open>resolve\<close> or \<^verbatim>\<open>reject\<close> (or throws synchronously), and stays pending when it
  does neither. The executor works on a state \<open>'s\<close> (for the closure of the handler: the
  outside world and the token counter). On a pending promise neither the \<^verbatim>\<open>catch\<close>
  callback nor anything after an \<^verbatim>\<open>await\<close> of the result ever runs.
\<close>

datatype ('e, 'a) promise = Resolved 'a | Rejected 'e | Pending

function retry ::
  "int \<Rightarrow> ('s \<Rightarrow> ('e, 'a) promise \<times> 's) \<Rightarrow> 's \<Rightarrow> ('e, 'a) promise \<times> 's" where
  "retry retries executor s =
     (case executor s of
        (Resolved v, s') \<Rightarrow> (Resolved v, s')
      | (Pending, s') \<Rightarrow> (Pending, s')
      | (Rejected error, s') \<Rightarrow>
          if retries > 0 then retry (retries - 1) executor s' else (Rejected error, s'))"
  by pat_completeness auto
termination
  by (relation "measure (\<lambda>(retries, executor, s). nat retries)") auto

declare retry.simps [simp del]

section \<open>The request handler\<close>

text \<open>
  A JavaScript number as far as the handler uses one: the value of
  \<^verbatim>\<open>+creditsAvailable.data.credits\<close>, which is \<^verbatim>\<open>NaN\<close> when the stored text is not
  numeric. Every comparison with \<^verbatim>\<open>NaN\<close> is false.
\<close>

datatype jsnum = NaN | Finite real

fun js_gt :: "jsnum \<Rightarrow> int \<Rightarrow> bool" where
  "js_gt (Finite b) e = (b > real_of_int e)"
| "js_gt NaN e = False"

text \<open>
  What the handler reads of a chat completion: the \<^verbatim>\<open>message.content\<close> of each choice
  and \<^verbatim>\<open>usage?.total_tokens\<close>.
\<close>

record completion =
  choices :: "string option list"
  usage :: "int option"

text \<open>
  The collaborators of the handler, whose code is not part of the service: the two
  database reads (\<^verbatim>\<open>.single()\<close> on \<^verbatim>\<open>keys\<close> and on \<^verbatim>\<open>tokens\<close>: they throw, or yield
  \<^verbatim>\<open>data\<close>, null when there is no row), the token estimate of the completion request
  built from \<^verbatim>\<open>input\<close> and \<^verbatim>\<open>format\<close>, the external generator (a call throws or
  returns a completion, and moves the generator to a new state \<open>'g\<close>), and
  \<^verbatim>\<open>JSON.parse\<close>.
\<close>

record 'g env =
  keys_single :: "string \<Rightarrow> js_error + string option"
  tokens_single :: "string \<Rightarrow> js_error + jsnum option"
  usedTokens :: "jsval \<Rightarrow> jsval \<Rightarrow> int"
  create :: "'g \<Rightarrow> (js_error + completion) \<times> 'g"
  JSON_parse :: "string option \<Rightarrow> js_error + jsval"

text \<open>
  What a request can change: the state of the generator, the number of completion
  calls issued, the rows inserted into \<^verbatim>\<open>tokens_used\<close> and the updates of
  \<^verbatim>\<open>tokens.credits\<close>. An update is recorded by the user and the two operands of
  \<^verbatim>\<open>+credits - tokensUsed\<close>: the code subtracts floating-point numbers and writes the
  text of the result, which the model does not compute.
\<close>

record 'g world =
  generator :: 'g
  completions_created :: nat
  tokens_used_rows :: "(int \<times> string) list"
  credits_updates :: "(string \<times> jsnum \<times> int) list"

text \<open>
  The handler answers with \<^verbatim>\<open>ctx.json(body, status)\<close>, or returns nothing, or never
  returns because it awaits a promise that stays pending.
\<close>

datatype error_field = NoError | Message string | Issues "(string \<times> issue) list"

record body =
  json_error :: error_field
  json_data :: jsval
  json_tokensUsed :: "int option"

datatype outcome = Responds nat body | NoResponse | NeverSettles

definition unauthorized :: "string \<Rightarrow> outcome" where
  "unauthorized message =
     Responds 401 \<lparr>json_error = Message message, json_data = Null, json_tokensUsed = None\<rparr>"

definition parse_api_key :: "string option \<Rightarrow> js_error + string" where
  "parse_api_key header =
     (case header of
        None \<Rightarrow> Inl (ValiError [Issue [] ''string'' Undefined])
      | Some h \<Rightarrow>
          if length h < 24 then Inl (ValiError [Issue [] ''>=24'' (Num (real (length h)))])
          else if length h > 32 then Inl (ValiError [Issue [] ''<=32'' (Num (real (length h)))])
          else Inr h)"

definition payloadSchema :: schema where
  "payloadSchema = SObject [(''input'', SString), (''format'', SLooseObject [])]"

text \<open>
  The executor that the handler passes to the driver: an \<^verbatim>\<open>async\<close> function. What it
  throws before its \<^verbatim>\<open>try\<close> block (a failed call of the generator, a completion
  without choices) rejects the promise of the \<^verbatim>\<open>async\<close> function itself, which nobody
  observes; neither \<^verbatim>\<open>resolve\<close> nor \<^verbatim>\<open>reject\<close> is called.
\<close>

definition generation_attempt ::
  "'g env \<Rightarrow> schema \<Rightarrow> 'g world \<times> int \<Rightarrow> (js_error, jsval) promise \<times> 'g world \<times> int" where
  "generation_attempt env dynamicSchema = (\<lambda>(w, tokensUsed).
     case create env (generator w) of
       (reply, g) \<Rightarrow>
         let w' = w\<lparr>generator := g, completions_created := Suc (completions_created w)\<rparr> in
         case reply of
           Inl e \<Rightarrow> (Pending, w', tokensUsed)
         | Inr openaiResponse \<Rightarrow>
             (case choices openaiResponse of
                [] \<Rightarrow> (Pending, w', tokensUsed)
              | answer # _ \<Rightarrow>
                  let tokensUsed' =
                        (case usage openaiResponse of
                           Some total_tokens \<Rightarrow>
                             if total_tokens \<noteq> 0 then tokensUsed + total_tokens else tokensUsed
                         | None \<Rightarrow> tokensUsed)
                  in case JSON_parse env answer of
                       Inl e \<Rightarrow> (Rejected e, w', tokensUsed')
                     | Inr jsonAnswer \<Rightarrow>
                         (case parse dynamicSchema jsonAnswer of
                            Inl e \<Rightarrow> (Rejected e, w', tokensUsed')
                          | Inr v \<Rightarrow> (Resolved v, w', tokensUsed'))))"

text \<open>Lines 155 to 198: synthesis, the retries, the two writes and the answer.\<close>

definition generation ::
  "'g env \<Rightarrow> string \<Rightarrow> jsnum \<Rightarrow> jsval \<Rightarrow> 'g world \<Rightarrow> (js_error + outcome) \<times> 'g world" where
  "generation env user_id credits format w =
     (case generateDynamicSchema format of
        Inl e \<Rightarrow> (Inl e, w)
      | Inr dynamicSchema \<Rightarrow>
          (case retry 1 (generation_attempt env dynamicSchema) (w, 0) of
             (Pending, w', tokensUsed) \<Rightarrow> (Inr NeverSettles, w')
           | (Rejected e, w', tokensUsed) \<Rightarrow> (Inl e, w')
           | (Resolved response, w', tokensUsed) \<Rightarrow>
               (Inr (Responds 200
                  \<lparr>json_error = NoError, json_data = response,
                     json_tokensUsed = Some tokensUsed\<rparr>),
                w'\<lparr>tokens_used_rows := tokens_used_rows w' @ [(tokensUsed, user_id)],
                   credits_updates :=
                     credits_updates w' @ [(user_id, credits, tokensUsed)]\<rparr>)))"

text \<open>The body of the innermost \<^verbatim>\<open>try\<close>: the payload, the metering check, the generation.\<close>

definition try_body ::
  "'g env \<Rightarrow> js_error + jsval \<Rightarrow> string \<Rightarrow> jsnum \<Rightarrow> 'g world \<Rightarrow> (js_error + outcome) \<times> 'g world" where
  "try_body env json user_id credits w =
     (case json of
        Inl e \<Rightarrow> (Inl e, w)
      | Inr b \<Rightarrow>
          (case parse payloadSchema b of
             Inl e \<Rightarrow> (Inl e, w)
           | Inr payload \<Rightarrow>
               let input = get_prop payload ''input''; format = get_prop payload ''format'' in
               if \<not> js_gt credits (usedTokens env input format)
               then (Inr (unauthorized ''Unauthorized: Not enough credits available.''), w)
               else generation env user_id credits format w))"

text \<open>
  The body of the middle \<^verbatim>\<open>try\<close>. The innermost \<^verbatim>\<open>catch\<close> is empty: whatever is
  thrown there is dropped, and the function then ends without a \<^verbatim>\<open>return\<close>.
\<close>

definition lookups ::
  "'g env \<Rightarrow> string \<Rightarrow> js_error + jsval \<Rightarrow> 'g world \<Rightarrow> (js_error + outcome) \<times> 'g world" where
  "lookups env apiToken json w =
     (case keys_single env apiToken of
        Inl e \<Rightarrow> (Inl e, w)
      | Inr None \<Rightarrow> (Inr (unauthorized ''Unauthorized: Invalid API Key''), w)
      | Inr (Some user_id) \<Rightarrow>
          (case tokens_single env user_id of
             Inl e \<Rightarrow> (Inl e, w)
           | Inr None \<Rightarrow>
               (Inr (unauthorized (''Unauthorized: Please completed the subscription process '' @
                  ''in the dashboard (https://www.data2json.xyz/dashboard)'')), w)
           | Inr (Some credits) \<Rightarrow>
               (case try_body env json user_id credits w of
                  (Inl e, w') \<Rightarrow> (Inr NoResponse, w')
                | (Inr r, w') \<Rightarrow> (Inr r, w'))))"

fun set_prop :: "string \<Rightarrow> 'a \<Rightarrow> (string \<times> 'a) list \<Rightarrow> (string \<times> 'a) list" where
  "set_prop k v [] = [(k, v)]"
| "set_prop k v ((k', v') # kvs) = (if k = k' then (k, v) # kvs else (k', v') # set_prop k v kvs)"

text \<open>
  The middle \<^verbatim>\<open>catch\<close>: it reads \<^verbatim>\<open>error.issues\<close>, which only a \<^verbatim>\<open>ValiError\<close>
  has (on any other error \<^verbatim>\<open>.map\<close> of \<^verbatim>\<open>undefined\<close> throws a TypeError), and maps the
  first path key of each issue, when truthy, to the issue.
\<close>

definition issues_catch :: "js_error \<Rightarrow> js_error + outcome" where
  "issues_catch e =
     (case e of
        ValiError issues \<Rightarrow>
          Inr (Responds 400
            \<lparr>json_error = Issues (foldl (\<lambda>m issue.
                  case path issue of
                    Key k # _ \<Rightarrow> if k \<noteq> [] then set_prop k issue m else m
                  | Idx i # _ \<Rightarrow> if i \<noteq> 0 then set_prop (string_of_nat i) issue m else m
                  | [] \<Rightarrow> m) [] issues),
             json_data = Null, json_tokensUsed = None\<rparr>)
      | _ \<Rightarrow> Inl TypeError)"

text \<open>The handler of \<^verbatim>\<open>POST /v1\<close>, with the outermost \<^verbatim>\<open>catch\<close>.\<close>

definition handler ::
  "'g env \<Rightarrow> string option \<Rightarrow> js_error + jsval \<Rightarrow> 'g world \<Rightarrow> outcome \<times> 'g world" where
  "handler env header json w =
     (case parse_api_key header of
        Inl e \<Rightarrow> (unauthorized ''Unauthorized: X-API-KEY header not found!'', w)
      | Inr apiToken \<Rightarrow>
          (case lookups env apiToken json w of
             (Inr r, w') \<Rightarrow> (r, w')
           | (Inl e, w') \<Rightarrow>
               (case issues_catch e of
                  Inr r \<Rightarrow> (r, w')
                | Inl e' \<Rightarrow> (unauthorized ''Unauthorized: X-API-KEY header not found!'', w'))))"

section \<open>Notions used to state the properties\<close>

subsection \<open>Templates of the same shape\<close>

text \<open>
  Two templates have the same shape when they are the same tree up to the values of the
  primitive leaves: objects with the same field names in the same order, arrays of the
  same length, the same kind of primitive at each leaf, and the same inferred kind at each
  object (two objects with the same field names can still differ in the text of their
  \<^verbatim>\<open>type\<close> marker).
\<close>

fun same_shape :: "jsval \<Rightarrow> jsval \<Rightarrow> bool"
and same_shapes :: "jsval list \<Rightarrow> jsval list \<Rightarrow> bool"
and same_fields :: "(string \<times> jsval) list \<Rightarrow> (string \<times> jsval) list \<Rightarrow> bool"
where
  "same_shape (Obj xs) (Obj ys) =
     (inferDataType (Obj xs) = inferDataType (Obj ys) \<and> same_fields xs ys)"
| "same_shape (Arr xs) (Arr ys) = same_shapes xs ys"
| "same_shape (Str a) (Str b) = True"
| "same_shape (Num a) (Num b) = True"
| "same_shape (Bool a) (Bool b) = True"
| "same_shape Null Null = True"
| "same_shape Undefined Undefined = True"
| "same_shape a b = False"
| "same_shapes [] [] = True"
| "same_shapes (x # xs) (y # ys) = (same_shape x y \<and> same_shapes xs ys)"
| "same_shapes xs ys = False"
| "same_fields [] [] = True"
| "same_fields ((k, x) # xs) ((l, y) # ys) = (k = l \<and> same_shape x y \<and> same_fields xs ys)"
| "same_fields xs ys = False"

subsection \<open>The template with null at every leaf\<close>

text \<open>
  A node of a template is a leaf when its inferred kind is neither \<^verbatim>\<open>"object"\<close> nor
  \<^verbatim>\<open>"array"\<close>. \<open>null_doc t\<close> is the document of the shape of \<open>t\<close> with \<^verbatim>\<open>null\<close> at
  every leaf: an array stays an array of the same length, a node of kind object becomes
  the object of its fields (the \<^verbatim>\<open>type\<close> marker apart; \<^verbatim>\<open>null\<close>, which has kind object
  and no field, becomes the empty object) and a \<^verbatim>\<open>{type: "array"}\<close> marker, which
  shows no element, becomes the empty array.
\<close>

fun null_doc :: "jsval \<Rightarrow> jsval" where
  "null_doc (Arr xs) = Arr (map null_doc xs)"
| "null_doc (Obj kvs) =
     (case inferDataType (Obj kvs) of
        Inl e \<Rightarrow> Null
      | Inr kind \<Rightarrow>
          if kind = ''object''
          then Obj (map (\<lambda>(k, v). (k, null_doc v)) (filter (\<lambda>(k, v). k \<noteq> ''type'') kvs))
          else if kind = ''array'' then Arr []
          else Null)"
| "null_doc Null = Obj []"
| "null_doc v = Null"

text \<open>No object of the template has a property named \<^verbatim>\<open>__proto__\<close>.\<close>

fun proto_free :: "jsval \<Rightarrow> bool" where
  "proto_free (Arr xs) = (\<forall>x \<in> set xs. proto_free x)"
| "proto_free (Obj kvs) =
     (''__proto__'' \<notin> set (map fst kvs) \<and> (\<forall>(k, v) \<in> set kvs. proto_free v))"
| "proto_free v = True"

text \<open>Every leaf of a schema is a nullable string, boolean or number.\<close>

fun nullable_leaves :: "schema \<Rightarrow> bool" where
  "nullable_leaves (SNullable s) = (s = SString \<or> s = SBoolean \<or> s = SNumber)"
| "nullable_leaves (SObject entries) = (\<forall>(key, s) \<in> set entries. nullable_leaves s)"
| "nullable_leaves (SArray s) = nullable_leaves s"
| "nullable_leaves s = False"

text \<open>
  Every array of the template is uniform: each element synthesizes to what the first
  element synthesizes to.
\<close>

fun uniform_arrays :: "jsval \<Rightarrow> bool" where
  "uniform_arrays (Arr xs) =
     (\<forall>x \<in> set xs. uniform_arrays x \<and>
        generateDynamicSchema x = generateDynamicSchema (get_prop (Arr xs) ''0''))"
| "uniform_arrays (Obj kvs) = (\<forall>(k, v) \<in> set kvs. uniform_arrays v)"
| "uniform_arrays v = True"

subsection \<open>Positions\<close>

text \<open>
  \<open>value_at v p\<close> is the value found in \<open>v\<close> by following the keys and indices of \<open>p\<close>.
  \<open>template_at t p\<close> is the node of the template that the synthesizer types for the
  position \<open>p\<close> of a candidate document: it descends into the fields (other than
  \<^verbatim>\<open>type\<close>) of a node of kind object and, for every index, into the first element of a
  node of kind array.
\<close>

fun value_at :: "jsval \<Rightarrow> path_key list \<Rightarrow> jsval option" where
  "value_at d [] = Some d"
| "value_at d (Key k # p) = (if is_object d then value_at (get_prop d k) p else None)"
| "value_at d (Idx i # p) =
     (case d of Arr xs \<Rightarrow> if i < length xs then value_at (xs ! i) p else None | _ \<Rightarrow> None)"

fun template_at :: "jsval \<Rightarrow> path_key list \<Rightarrow> jsval option" where
  "template_at t [] = Some t"
| "template_at t (Key k # p) =
     (if inferDataType t = Inr ''object'' \<and> k \<noteq> ''type'' \<and> k \<in> set (for_in t)
      then template_at (get_prop t k) p else None)"
| "template_at t (Idx i # p) =
     (if inferDataType t = Inr ''array'' then template_at (get_prop t ''0'') p else None)"

subsection \<open>The trace of the invocations of an executor\<close>

text \<open>\<open>logged executor\<close> behaves as \<open>executor\<close> and records the outcome of each invocation.\<close>

definition logged ::
  "('s \<Rightarrow> ('e, 'a) promise \<times> 's) \<Rightarrow>
   's \<times> ('e, 'a) promise list \<Rightarrow> ('e, 'a) promise \<times> 's \<times> ('e, 'a) promise list" where
  "logged executor = (\<lambda>(s, tr). case executor s of (r, s') \<Rightarrow> (r, s', tr @ [r]))"

fun is_rejected :: "('e, 'a) promise \<Rightarrow> bool" where
  "is_rejected (Rejected e) = True"
| "is_rejected p = False"

text \<open>An executor that is rejected on its first two invocations and resolved on the third.\<close>

definition fails_twice :: "nat \<Rightarrow> (string, string) promise \<times> nat" where
  "fails_twice calls =
     (if calls = 0 then Rejected ''first'' else if calls = 1 then Rejected ''second''
      else Resolved ''third'', Suc calls)"

subsection \<open>The replies of the generator\<close>

text \<open>The first \<open>n\<close> replies of the generator from the state \<open>g\<close>, and the tokens a reply reports.\<close>

fun replies :: "('g \<Rightarrow> 'r \<times> 'g) \<Rightarrow> 'g \<Rightarrow> nat \<Rightarrow> 'r list" where
  "replies call g 0 = []"
| "replies call g (Suc n) = (case call g of (r, g') \<Rightarrow> r # replies call g' n)"

definition reported_tokens :: "js_error + completion \<Rightarrow> int" where
  "reported_tokens reply =
     (case reply of
        Inl e \<Rightarrow> 0
      | Inr c \<Rightarrow> (case usage c of None \<Rightarrow> 0 | Some total_tokens \<Rightarrow> total_tokens))"

subsection \<open>A concrete environment\<close>

text \<open>
  A generator that replies from a script and fails when the script is used up, a key
  table with one user, an estimate of 100 tokens, and a \<^verbatim>\<open>JSON.parse\<close> that knows one
  text.
\<close>

definition scripted :: "completion list \<Rightarrow> (js_error + completion) \<times> completion list" where
  "scripted g = (case g of [] \<Rightarrow> (Inl OtherError, []) | c # cs \<Rightarrow> (Inr c, cs))"

definition example_env :: "jsnum \<Rightarrow> (completion list) env" where
  "example_env credits =
     \<lparr>keys_single = (\<lambda>k. Inr (Some ''user-1'')),
      tokens_single = (\<lambda>u. Inr (Some credits)),
      usedTokens = (\<lambda>input format. 100),
      create = scripted,
      JSON_parse = (\<lambda>s. if s = Some ''{name:null}'' then Inr (Obj [(''name'', Null)])
                         else Inl SyntaxError)\<rparr>"

definition example_world :: "completion list \<Rightarrow> (completion list) world" where
  "example_world g =
     \<lparr>generator = g, completions_created = 0, tokens_used_rows = [], credits_updates = []\<rparr>"

definition example_key :: "string option" where
  "example_key = Some ''0123456789abcdef01234567''"

definition example_body :: jsval where
  "example_body = Obj [(''input'', Str ''Jane''), (''format'', Obj [(''name'', Str ''x'')])]"

section \<open>Properties of type inference\<close>

text \<open>
  Only \<^verbatim>\<open>null\<close> and objects are of kind object, and only arrays and objects (through a
  marker) of kind array: the synthesizer enumerates the keys of nothing else, and reads
  element 0 of nothing else.
\<close>

lemma object_kind_cases:
  "inferDataType a = Inr ''object'' \<Longrightarrow> a = Null \<or> (\<exists>kvs. a = Obj kvs)"
  by (cases a) (auto simp: inferDataType_def split: if_splits)

lemma array_kind_cases:
  "inferDataType a = Inr ''array'' \<Longrightarrow> (\<exists>xs. a = Arr xs) \<or> (\<exists>kvs. a = Obj kvs)"
  by (cases a) (auto simp: inferDataType_def split: if_splits)

text \<open>
  C4, as stated, fails: for \<^verbatim>\<open>undefined\<close> (what \<^verbatim>\<open>schema?.[0]\<close> yields for an empty
  array, or for a \<^verbatim>\<open>{type: "array"}\<close> marker) the inferencer returns \<^verbatim>\<open>typeof\<close> of it,
  the string \<^verbatim>\<open>"undefined"\<close>, which is none of the five kinds.
\<close>

theorem inferDataType_undefined_counterexample:
  "inferDataType Undefined = Inr ''undefined'' \<and> ''undefined'' \<notin> set types"
  by (simp add: inferDataType_def types_def)

text \<open>
  C4, amended: every node other than \<^verbatim>\<open>undefined\<close> that has no own property named
  \<^verbatim>\<open>hasOwnProperty\<close> is classified as one of the five kinds, without error; and when
  the node has no own \<^verbatim>\<open>type\<close> property the kind is \<^verbatim>\<open>"array"\<close> for an array,
  the native kind for a string, boolean or number, and \<^verbatim>\<open>"object"\<close> for anything else
  (an object, or \<^verbatim>\<open>null\<close>).
\<close>

theorem inferDataType_five_kinds:
  assumes "v \<noteq> Undefined" and "''hasOwnProperty'' \<notin> set (for_in v)"
  shows "(\<exists>t. inferDataType v = Inr t \<and> t \<in> set types) \<and>
         (''type'' \<notin> set (for_in v) \<longrightarrow>
            inferDataType v =
              Inr (case v of
                     Arr xs \<Rightarrow> ''array''
                   | Str s \<Rightarrow> ''string''
                   | Bool b \<Rightarrow> ''boolean''
                   | Num n \<Rightarrow> ''number''
                   | _ \<Rightarrow> ''object''))"
proof (cases v)
  case (Obj kvs)
  show ?thesis
  proof (cases "''type'' \<in> set (map fst kvs)")
    case True
    with Obj assms(2) show ?thesis
      by (cases "get_prop (Obj kvs) ''type''")
         (simp_all add: inferDataType_def types_def del: get_prop.simps)
  next
    case False
    with Obj assms(2) show ?thesis
      by (simp add: inferDataType_def types_def)
  qed
qed (use assms in \<open>simp_all add: inferDataType_def types_def\<close>)

theorem inferDataType_five_kinds_witness:
  "Null \<noteq> Undefined \<and> ''hasOwnProperty'' \<notin> set (for_in Null) \<and>
   ''type'' \<notin> set (for_in Null) \<and> inferDataType Null = Inr ''object'' \<and>
   ''object'' \<in> set types"
  using inferDataType_five_kinds [of Null] by (simp add: types_def)

section \<open>Synthesis depends on the shape only\<close>

lemma same_fields_keys: "same_fields xs ys \<Longrightarrow> map fst xs = map fst ys"
  by (induction xs ys rule: list_induct2') auto

lemma same_fields_lookup:
  "same_fields xs ys \<Longrightarrow> same_shape (get_prop (Obj xs) k) (get_prop (Obj ys) k)"
  by (induction xs ys rule: list_induct2') auto

lemma same_shape_first:
  "same_shapes xs ys \<Longrightarrow> same_shape (get_prop (Arr xs) ''0'') (get_prop (Arr ys) ''0'')"
  by (induction xs ys rule: list_induct2') auto

lemma same_shape_kind: "same_shape a b \<Longrightarrow> inferDataType a = inferDataType b"
  by (cases a; cases b) (auto simp: inferDataType_def)

lemma same_shape_for_in:
  "same_shape a b \<Longrightarrow> inferDataType a = Inr ''object'' \<Longrightarrow> for_in a = for_in b"
  by (cases a; cases b) (auto simp: inferDataType_def same_fields_keys split: if_splits)

lemma same_shape_get_prop:
  "same_shape a b \<Longrightarrow> inferDataType a = Inr ''object'' \<Longrightarrow>
   same_shape (get_prop a k) (get_prop b k)"
  using same_fields_lookup by (cases a; cases b) (auto simp: inferDataType_def split: if_splits)

lemma same_shape_get_0:
  "same_shape a b \<Longrightarrow> inferDataType a = Inr ''array'' \<Longrightarrow>
   same_shape (get_prop a ''0'') (get_prop b ''0'')"
  using same_fields_lookup same_shape_first
  by (cases a; cases b) (auto simp: inferDataType_def split: if_splits)

text \<open>
  C6: two templates of the same shape synthesize the same result (the same schema, or the
  same error). The synthesizer is a function of its argument alone, so two runs on one
  template agree.
\<close>

theorem generateDynamicSchema_shape_only:
  "same_shape a b \<Longrightarrow> generateDynamicSchema a = generateDynamicSchema b"
proof (induction a arbitrary: b rule: generateDynamicSchema.induct)
  case (1 schema)
  have kind: "inferDataType b = inferDataType schema"
    using "1.prems" by (simp add: same_shape_kind)
  show ?case
  proof (cases "inferDataType schema")
    case (Inl e)
    with kind show ?thesis
      by (simp add: generateDynamicSchema.simps [of schema] generateDynamicSchema.simps [of b])
  next
    case (Inr type)
    consider (obj) "type = ''object''" | (arr) "type = ''array''"
      | (leaf) "type \<noteq> ''object''" "type \<noteq> ''array''" by blast
    then show ?thesis
    proof cases
      case obj
      have keys: "for_in b = for_in schema"
        using "1.prems" Inr obj by (simp add: same_shape_for_in)
      have "generateDynamicSchema (get_prop schema key) = generateDynamicSchema (get_prop b key)"
        if "key \<in> set (filter (\<lambda>key. key \<noteq> ''type'') (for_in schema))" for key
        using "1.IH"(1) [OF Inr obj that] "1.prems" Inr obj by (simp add: same_shape_get_prop)
      then have eq: "map (\<lambda>key. (key, generateDynamicSchema (get_prop schema key)))
                   (filter (\<lambda>key. key \<noteq> ''type'') (for_in schema))
               = map (\<lambda>key. (key, generateDynamicSchema (get_prop b key)))
                   (filter (\<lambda>key. key \<noteq> ''type'') (for_in schema))"
        by simp
      show ?thesis
        unfolding generateDynamicSchema.simps [of schema] generateDynamicSchema.simps [of b]
          kind keys Inr eq by (simp add: obj)
    next
      case arr
      have "generateDynamicSchema (get_prop schema ''0'') = generateDynamicSchema (get_prop b ''0'')"
        using "1.IH"(2) [OF Inr _ arr] arr "1.prems" Inr by (simp add: same_shape_get_0)
      with Inr arr kind show ?thesis
        by (simp add: generateDynamicSchema.simps [of schema] generateDynamicSchema.simps [of b])
    next
      case leaf
      with Inr kind show ?thesis
        by (simp add: generateDynamicSchema.simps [of schema] generateDynamicSchema.simps [of b])
    qed
  qed
qed

theorem generateDynamicSchema_shape_only_witness:
  "same_shape (Obj [(''age'', Num 30)]) (Obj [(''age'', Num 0)]) \<and>
   generateDynamicSchema (Obj [(''age'', Num 30)]) = generateDynamicSchema (Obj [(''age'', Num 0)])"
  using generateDynamicSchema_shape_only [of "Obj [(''age'', Num 30)]" "Obj [(''age'', Num 0)]"]
  by (simp add: inferDataType_def)

section \<open>Evaluating the synthesizer\<close>

lemma generateDynamicSchema_Str: "generateDynamicSchema (Str x) = Inr (SNullable SString)"
  and generateDynamicSchema_Num: "generateDynamicSchema (Num n) = Inr (SNullable SNumber)"
  and generateDynamicSchema_Bool: "generateDynamicSchema (Bool b) = Inr (SNullable SBoolean)"
  and generateDynamicSchema_Undefined: "generateDynamicSchema Undefined = Inr (SNullable SString)"
  and generateDynamicSchema_Null: "generateDynamicSchema Null = Inr (SObject [])"
  and generateDynamicSchema_Arr:
    "generateDynamicSchema (Arr xs) =
       map_sum id SArray (generateDynamicSchema (case xs of [] \<Rightarrow> Undefined | x # _ \<Rightarrow> x))"
  by (simp_all add: generateDynamicSchema.simps [of "Str x"] generateDynamicSchema.simps [of "Num n"]
        generateDynamicSchema.simps [of "Bool b"] generateDynamicSchema.simps [of Undefined]
        generateDynamicSchema.simps [of Null] generateDynamicSchema.simps [of "Arr xs"]
        inferDataType_def split: list.splits)

lemmas generateDynamicSchema_Obj = generateDynamicSchema.simps [of "Obj kvs" for kvs]

lemmas synth_eval = generateDynamicSchema_Str generateDynamicSchema_Num generateDynamicSchema_Bool
  generateDynamicSchema_Undefined generateDynamicSchema_Null generateDynamicSchema_Arr
  generateDynamicSchema_Obj inferDataType_def types_def

lemma map_sum_id_Inr: "map_sum id f r = Inr s \<longleftrightarrow> (\<exists>x. r = Inr x \<and> s = f x)"
  by (cases r) auto

lemma assign_all_member:
  "assign_all xs = Inr ys \<Longrightarrow> (k, s) \<in> set ys \<Longrightarrow> (k, Inr s) \<in> set xs"
proof (induction xs arbitrary: ys)
  case Nil
  then show ?case by simp
next
  case (Cons x xs)
  obtain k' r where x: "x = (k', r)" by (cases x)
  with Cons.prems(1) obtain s' ys' where r: "r = Inr s'" and rest: "assign_all xs = Inr ys'"
    and ys: "ys = (k', s') # ys'"
    by (auto split: sum.splits)
  with Cons.prems(2) Cons.IH [OF rest] x show ?case by auto
qed

lemma assign_all_total:
  "assign_all xs = Inr ys \<Longrightarrow> (k, r) \<in> set xs \<Longrightarrow> \<exists>s. r = Inr s \<and> (k, s) \<in> set ys"
proof (induction xs arbitrary: ys)
  case Nil
  then show ?case by simp
next
  case (Cons x xs)
  obtain k' r' where x: "x = (k', r')" by (cases x)
  with Cons.prems(1) obtain s' ys' where r: "r' = Inr s'" and rest: "assign_all xs = Inr ys'"
    and ys: "ys = (k', s') # ys'"
    by (auto split: sum.splits)
  with Cons.prems(2) Cons.IH [OF rest] x show ?case by auto
qed

section \<open>Which inputs a schema accepts\<close>

lemma ball_enumerate:
  "(\<forall>p\<in>set (enumerate n xs). P (snd p)) \<longleftrightarrow> (\<forall>x\<in>set xs. P x)"
proof -
  have "(\<forall>p\<in>set (enumerate n xs). P (snd p)) \<longleftrightarrow> (\<forall>x\<in>set (map snd (enumerate n xs)). P x)"
    by (simp del: map_snd_enumerate)
  then show ?thesis by simp
qed

lemma run_SArray_ok:
  "run_schema (SArray s) v = [] \<longleftrightarrow> (\<exists>xs. v = Arr xs \<and> (\<forall>x\<in>set xs. run_schema s x = []))"
  using ball_enumerate [of 0 _ "\<lambda>x. run_schema s x = []"]
  by (cases v) (auto simp: case_prod_unfold)

lemma run_SObject_ok:
  "run_schema (SObject es) v = [] \<longleftrightarrow>
     is_object v \<and> (\<forall>(k, s)\<in>set es. run_schema s (get_prop v k) = [])"
  by (auto simp del: get_prop.simps)

section \<open>Null at the leaves\<close>

lemma map_of_null_doc:
  "k \<noteq> ''type'' \<Longrightarrow>
   map_of (map (\<lambda>(k, v). (k, f v)) (filter (\<lambda>(k, v). k \<noteq> ''type'') kvs)) k
     = map_option f (map_of kvs k)"
  by (induction kvs) auto

lemma uniform_lookup:
  "uniform_arrays (Obj kvs) \<Longrightarrow> map_of kvs k = Some v \<Longrightarrow> uniform_arrays v"
  by (auto dest: map_of_SomeD)

text \<open>
  C5, as stated, fails: the element schema of an array comes from its first element
  alone. For the template \<^verbatim>\<open>{tags: ["a", {x: 1}]}\<close> the schema is
  \<^verbatim>\<open>object({tags: array(nullable(string()))})\<close>, and the document of the same shape with
  null at every leaf, \<^verbatim>\<open>{tags: [null, {x: null}]}\<close>, is rejected at \<^verbatim>\<open>tags[1]\<close>.
\<close>

theorem null_doc_mixed_array_counterexample:
  "null_doc (Obj [(''tags'', Arr [Str ''a'', Obj [(''x'', Num 1)]])])
     = Obj [(''tags'', Arr [Null, Obj [(''x'', Null)]])] \<and>
   generateDynamicSchema (Obj [(''tags'', Arr [Str ''a'', Obj [(''x'', Num 1)]])])
     = Inr (SObject [(''tags'', SArray (SNullable SString))]) \<and>
   run_schema (SObject [(''tags'', SArray (SNullable SString))])
     (Obj [(''tags'', Arr [Null, Obj [(''x'', Null)]])])
     = [Issue [Key ''tags'', Idx 1] ''string'' (Obj [(''x'', Null)])]"
  by (simp add: synth_eval under_def)

lemma null_doc_accepted:
  "uniform_arrays t \<Longrightarrow> generateDynamicSchema t = Inr s \<Longrightarrow> run_schema s (null_doc t) = []"
proof (induction t arbitrary: s)
  case (Arr xs)
  from Arr.prems(2) obtain s0 where s: "s = SArray s0"
    and s0: "generateDynamicSchema (get_prop (Arr xs) ''0'') = Inr s0"
    by (auto simp: generateDynamicSchema.simps [of "Arr xs"] inferDataType_def map_sum_id_Inr
             simp del: get_prop.simps split: sum.splits)
  have "run_schema s0 (null_doc x) = []" if "x \<in> set xs" for x
    using Arr.IH [OF that, of s0] Arr.prems(1) that s0 by simp
  with s show ?case by (simp add: run_SArray_ok del: run_schema.simps)
next
  case (Obj kvs)
  show ?case
  proof (cases "inferDataType (Obj kvs)")
    case (Inl e)
    with Obj.prems(2) show ?thesis by (simp add: generateDynamicSchema.simps [of "Obj kvs"])
  next
    case (Inr kind)
    consider (obj) "kind = ''object''" | (arr) "kind = ''array''"
      | (leaf) "kind \<noteq> ''object''" "kind \<noteq> ''array''" by blast
    then show ?thesis
    proof cases
      case obj
      from Obj.prems(2) Inr obj obtain es where s: "s = SObject es"
        and es: "assign_all (map (\<lambda>key. (key, generateDynamicSchema (get_prop (Obj kvs) key)))
                   (filter (\<lambda>key. key \<noteq> ''type'') (for_in (Obj kvs)))) = Inr es"
        by (auto simp: generateDynamicSchema.simps [of "Obj kvs"] map_sum_id_Inr
                 simp del: get_prop.simps for_in.simps)
      have "run_schema sk (get_prop (null_doc (Obj kvs)) k) = []" if "(k, sk) \<in> set es" for k sk
      proof -
        from assign_all_member [OF es that]
        have k: "k \<noteq> ''type''" "k \<in> set (map fst kvs)"
          and sk: "generateDynamicSchema (get_prop (Obj kvs) k) = Inr sk"
          by auto
        from k(2) have "map_of kvs k \<noteq> None" by (simp add: map_of_eq_None_iff)
        then obtain v where v: "map_of kvs k = Some v" by blast
        then have "(k, v) \<in> set kvs" by (rule map_of_SomeD)
        then have "run_schema sk (null_doc v) = []"
          using Obj.IH [of "(k, v)" v sk] uniform_lookup [OF Obj.prems(1) v] sk v by simp
        with Inr obj k(1) v show ?thesis by (simp add: map_of_null_doc)
      qed
      moreover have "is_object (null_doc (Obj kvs))"
        using Inr obj by simp
      ultimately show ?thesis
        using s by (auto simp: run_SObject_ok simp del: null_doc.simps run_schema.simps)
    next
      case arr
      with Obj.prems(2) Inr show ?thesis
        by (auto simp: generateDynamicSchema.simps [of "Obj kvs"] run_SArray_ok map_sum_id_Inr
                 simp del: get_prop.simps run_schema.simps)
    next
      case leaf
      with Obj.prems(2) Inr show ?thesis
        by (auto simp: generateDynamicSchema.simps [of "Obj kvs"] split: if_splits)
    qed
  qed
qed (auto simp: generateDynamicSchema.simps inferDataType_def)

lemma synthesized_leaves_nullable:
  "generateDynamicSchema t = Inr s \<Longrightarrow> nullable_leaves s"
proof (induction t arbitrary: s rule: generateDynamicSchema.induct)
  case (1 schema)
  show ?case
  proof (cases "inferDataType schema")
    case (Inl e)
    with "1.prems" show ?thesis by (simp add: generateDynamicSchema.simps [of schema])
  next
    case (Inr type)
    consider (obj) "type = ''object''" | (arr) "type = ''array''"
      | (leaf) "type \<noteq> ''object''" "type \<noteq> ''array''" by blast
    then show ?thesis
    proof cases
      case obj
      from "1.prems" Inr obj obtain es where s: "s = SObject es"
        and es: "assign_all (map (\<lambda>key. (key, generateDynamicSchema (get_prop schema key)))
                   (filter (\<lambda>key. key \<noteq> ''type'') (for_in schema))) = Inr es"
        by (auto simp: generateDynamicSchema.simps [of schema] map_sum_id_Inr)
      have "nullable_leaves sk" if "(k, sk) \<in> set es" for k sk
      proof -
        from assign_all_member [OF es that]
        have "k \<in> set (filter (\<lambda>key. key \<noteq> ''type'') (for_in schema))"
          and "generateDynamicSchema (get_prop schema k) = Inr sk"
          by auto
        then show ?thesis using "1.IH"(1) [OF Inr obj] by blast
      qed
      with s show ?thesis by auto
    next
      case arr
      from "1.prems" Inr arr obtain s0 where s: "s = SArray s0"
        and s0: "generateDynamicSchema (get_prop schema ''0'') = Inr s0"
        by (auto simp: generateDynamicSchema.simps [of schema] map_sum_id_Inr)
      from "1.IH"(2) [OF Inr _ arr s0] arr s show ?thesis by simp
    next
      case leaf
      with "1.prems" Inr show ?thesis
        by (auto simp: generateDynamicSchema.simps [of schema] split: if_splits)
    qed
  qed
qed

text \<open>
  A \<^verbatim>\<open>null\<close> in the template is not a leaf: its kind is object, it synthesizes to the
  object schema without entries, and a candidate with \<^verbatim>\<open>null\<close> at that position is
  rejected. The document \<open>null_doc\<close> has the empty object there.
\<close>

lemma null_in_template_is_object:
  "generateDynamicSchema (Obj [(''name'', Null)]) = Inr (SObject [(''name'', SObject [])]) \<and>
   null_doc (Obj [(''name'', Null)]) = Obj [(''name'', Obj [])] \<and>
   run_schema (SObject [(''name'', SObject [])]) (Obj [(''name'', Obj [])]) = [] \<and>
   run_schema (SObject [(''name'', SObject [])]) (Obj [(''name'', Null)])
     = [Issue [Key ''name''] ''Object'' Null]"
  by (simp add: synth_eval under_def)

text \<open>
  C5, amended: for every template in which no object has a property named
  \<^verbatim>\<open>__proto__\<close> and for which synthesis succeeds, every leaf of the synthesized schema is
  a nullable string, boolean or number (so it accepts null in addition to its primitive
  kind); and when the arrays of the template are uniform, the document of the shape of
  the template with null at every leaf is accepted by the synthesized schema.
\<close>

theorem null_doc_validates:
  "proto_free t \<Longrightarrow> generateDynamicSchema t = Inr s \<Longrightarrow>
   nullable_leaves s \<and> (uniform_arrays t \<longrightarrow> run_schema s (null_doc t) = [])"
  using synthesized_leaves_nullable null_doc_accepted by blast

theorem null_doc_validates_witness:
  "proto_free (Obj [(''name'', Str ''x''), (''score'', Num 1)]) \<and>
   generateDynamicSchema (Obj [(''name'', Str ''x''), (''score'', Num 1)])
     = Inr (SObject [(''name'', SNullable SString), (''score'', SNullable SNumber)]) \<and>
   uniform_arrays (Obj [(''name'', Str ''x''), (''score'', Num 1)]) \<and>
   null_doc (Obj [(''name'', Str ''x''), (''score'', Num 1)])
     = Obj [(''name'', Null), (''score'', Null)] \<and>
   nullable_leaves (SObject [(''name'', SNullable SString), (''score'', SNullable SNumber)]) \<and>
   run_schema (SObject [(''name'', SNullable SString), (''score'', SNullable SNumber)])
     (Obj [(''name'', Null), (''score'', Null)]) = []"
  using null_doc_validates [of "Obj [(''name'', Str ''x''), (''score'', Num 1)]"
      "SObject [(''name'', SNullable SString), (''score'', SNullable SNumber)]"]
  by (simp add: synth_eval)

section \<open>Null at an object position\<close>

text \<open>
  C10, as stated, fails for an object that is a later element of an array: the
  synthesizer never looks at it. For the template \<^verbatim>\<open>{tags: ["a", {x: 1}]}\<close> the node at
  \<^verbatim>\<open>tags[1]\<close> is an object, and the candidate \<^verbatim>\<open>{tags: ["a", null]}\<close>, with null at
  that position, is accepted.
\<close>

theorem later_element_object_counterexample:
  "value_at (Obj [(''tags'', Arr [Str ''a'', Obj [(''x'', Num 1)]])]) [Key ''tags'', Idx 1]
     = Some (Obj [(''x'', Num 1)]) \<and>
   inferDataType (Obj [(''x'', Num 1)]) = Inr ''object'' \<and>
   value_at (Obj [(''tags'', Arr [Str ''a'', Null])]) [Key ''tags'', Idx 1] = Some Null \<and>
   generateDynamicSchema (Obj [(''tags'', Arr [Str ''a'', Obj [(''x'', Num 1)]])])
     = Inr (SObject [(''tags'', SArray (SNullable SString))]) \<and>
   run_schema (SObject [(''tags'', SArray (SNullable SString))])
     (Obj [(''tags'', Arr [Str ''a'', Null])]) = []"
  by (simp add: synth_eval)

text \<open>
  Neither an object schema nor an array schema is wrapped in \<^verbatim>\<open>nullable\<close>: null at a
  position that the synthesizer types as object or array is rejected.
\<close>

lemma null_at_container_rejected:
  "generateDynamicSchema t = Inr s \<Longrightarrow> template_at t p = Some n \<Longrightarrow>
   inferDataType n = Inr ''object'' \<or> inferDataType n = Inr ''array'' \<Longrightarrow>
   value_at d p = Some Null \<Longrightarrow> run_schema s d \<noteq> []"
proof (induction p arbitrary: t s d)
  case Nil
  then show ?case
    by (auto simp: generateDynamicSchema.simps [of t] map_sum_id_Inr)
next
  case (Cons step p)
  show ?case
  proof (cases step)
    case (Key k)
    with Cons.prems(2) have kind: "inferDataType t = Inr ''object''" and k: "k \<noteq> ''type''"
      "k \<in> set (for_in t)" and sub: "template_at (get_prop t k) p = Some n"
      by (auto split: if_splits)
    from Cons.prems(1) kind obtain es where s: "s = SObject es"
      and es: "assign_all (map (\<lambda>key. (key, generateDynamicSchema (get_prop t key)))
                 (filter (\<lambda>key. key \<noteq> ''type'') (for_in t))) = Inr es"
      by (auto simp: generateDynamicSchema.simps [of t] map_sum_id_Inr)
    from k have "(k, generateDynamicSchema (get_prop t k))
        \<in> set (map (\<lambda>key. (key, generateDynamicSchema (get_prop t key)))
                 (filter (\<lambda>key. key \<noteq> ''type'') (for_in t)))"
      by simp
    from assign_all_total [OF es this] obtain sk
      where sk: "generateDynamicSchema (get_prop t k) = Inr sk" and mem: "(k, sk) \<in> set es"
      by blast
    from Cons.prems(4) Key have d: "is_object d" "value_at (get_prop d k) p = Some Null"
      by (auto split: if_splits)
    from Cons.IH [OF sk sub Cons.prems(3) d(2)] have "run_schema sk (get_prop d k) \<noteq> []" .
    with mem s show ?thesis
      by (auto simp: run_SObject_ok simp del: run_schema.simps)
  next
    case (Idx i)
    with Cons.prems(2) have kind: "inferDataType t = Inr ''array''"
      and sub: "template_at (get_prop t ''0'') p = Some n"
      by (auto split: if_splits)
    from Cons.prems(1) kind obtain s0 where s: "s = SArray s0"
      and s0: "generateDynamicSchema (get_prop t ''0'') = Inr s0"
      by (auto simp: generateDynamicSchema.simps [of t] map_sum_id_Inr)
    from Cons.prems(4) Idx obtain xs where d: "d = Arr xs" "i < length xs"
      "value_at (xs ! i) p = Some Null"
      by (auto split: jsval.splits if_splits)
    from Cons.IH [OF s0 sub Cons.prems(3) d(3)] have "run_schema s0 (xs ! i) \<noteq> []" .
    with d s show ?thesis
      by (auto simp: run_SArray_ok simp del: run_schema.simps)
  qed
qed

text \<open>
  C10, amended: whenever the synthesizer types a node of the template as an object (a
  node it reaches through fields other than \<^verbatim>\<open>type\<close> and through the first element of
  arrays), a candidate document with null at the corresponding position (in an array, at
  any index) is rejected by the synthesized schema.
\<close>

theorem null_at_object_rejected:
  "generateDynamicSchema t = Inr s \<Longrightarrow> template_at t p = Some n \<Longrightarrow>
   inferDataType n = Inr ''object'' \<Longrightarrow> value_at d p = Some Null \<Longrightarrow> run_schema s d \<noteq> []"
  using null_at_container_rejected by blast

theorem null_at_object_rejected_witness:
  "generateDynamicSchema (Obj [(''a'', Obj [(''b'', Num 1)])])
     = Inr (SObject [(''a'', SObject [(''b'', SNullable SNumber)])]) \<and>
   template_at (Obj [(''a'', Obj [(''b'', Num 1)])]) [Key ''a''] = Some (Obj [(''b'', Num 1)]) \<and>
   inferDataType (Obj [(''b'', Num 1)]) = Inr ''object'' \<and>
   value_at (Obj [(''a'', Null)]) [Key ''a''] = Some Null \<and>
   run_schema (SObject [(''a'', SObject [(''b'', SNullable SNumber)])]) (Obj [(''a'', Null)]) \<noteq> []"
  using null_at_object_rejected [of "Obj [(''a'', Obj [(''b'', Num 1)])]"
      "SObject [(''a'', SObject [(''b'', SNullable SNumber)])]" "[Key ''a'']"
      "Obj [(''b'', Num 1)]" "Obj [(''a'', Null)]"]
  by (simp add: synth_eval)

section \<open>The bound on retries\<close>

lemma retry_log:
  "retry n (logged executor) (s, tr0) = (r, s', tr) \<Longrightarrow>
   \<exists>new. tr = tr0 @ new \<and> new \<noteq> [] \<and> length new \<le> nat n + 1 \<and> r = last new \<and>
     (\<forall>x\<in>set (butlast new). is_rejected x) \<and> (is_rejected r \<longrightarrow> length new = nat n + 1)"
proof (induction n "logged executor" "(s, tr0)" arbitrary: s tr0 rule: retry.induct)
  case (1 retries)
  obtain r1 s1 where ex: "executor s = (r1, s1)" by (cases "executor s")
  show ?case
  proof (cases "is_rejected r1 \<and> retries > 0")
    case False
    with ex "1.prems" have "tr = tr0 @ [r1]" "r = r1"
      by (cases r1; auto simp: retry.simps [of retries] logged_def)+
    with False show ?thesis by (cases r1) auto
  next
    case True
    then obtain e where r1: "r1 = Rejected e" by (cases r1) auto
    with True ex "1.prems"
    have rec: "retry (retries - 1) (logged executor) (s1, tr0 @ [r1]) = (r, s', tr)"
      by (simp add: retry.simps [of retries] logged_def)
    have "logged executor (s, tr0) = (Rejected e, s1, tr0 @ [r1])"
      using ex r1 by (simp add: logged_def)
    from "1.hyps" [OF this [symmetric] refl _ rec] True
    obtain new where new: "tr = (tr0 @ [r1]) @ new" "new \<noteq> []"
      "length new \<le> nat (retries - 1) + 1" "r = last new"
      "\<forall>x\<in>set (butlast new). is_rejected x" "is_rejected r \<longrightarrow> length new = nat (retries - 1) + 1"
      by auto
    have "tr = tr0 @ (r1 # new)" using new(1) by simp
    moreover have "length (r1 # new) \<le> nat retries + 1" using new(3) True by auto
    moreover have "r = last (r1 # new)" using new(2,4) by simp
    moreover have "\<forall>x\<in>set (butlast (r1 # new)). is_rejected x" using new(2,5) r1 by auto
    moreover have "is_rejected r \<longrightarrow> length (r1 # new) = nat retries + 1" using new(6) True by auto
    ultimately show ?thesis by blast
  qed
qed

text \<open>Recording the invocations does not change what the driver does.\<close>

lemma retry_logged:
  "retry n (logged executor) (s, tr0) = (r, s', tr) \<Longrightarrow> retry n executor s = (r, s')"
proof (induction n "logged executor" "(s, tr0)" arbitrary: s tr0 rule: retry.induct)
  case (1 retries)
  obtain r1 s1 where ex: "executor s = (r1, s1)" by (cases "executor s")
  show ?case
  proof (cases "is_rejected r1 \<and> retries > 0")
    case False
    with ex "1.prems" show ?thesis
      by (cases r1; auto simp: retry.simps [of retries] logged_def)
  next
    case True
    then obtain e where r1: "r1 = Rejected e" by (cases r1) auto
    with True ex "1.prems"
    have rec: "retry (retries - 1) (logged executor) (s1, tr0 @ [r1]) = (r, s', tr)"
      by (simp add: retry.simps [of retries] logged_def)
    have "logged executor (s, tr0) = (Rejected e, s1, tr0 @ [r1])"
      using ex r1 by (simp add: logged_def)
    from "1.hyps" [OF this [symmetric] refl _ rec] True
    have "retry (retries - 1) executor s1 = (r, s')" by simp
    with True ex r1 show ?thesis by (simp add: retry.simps [of retries])
  qed
qed

text \<open>
  C2: with \<open>n \<ge> 0\<close> retries the driver invokes the executor at least once and at most
  \<open>n + 1\<close> times. Its result is the outcome of the last invocation and every earlier
  invocation was rejected, so the first success ends the run and is what the driver returns;
  and when every invocation is rejected there were exactly \<open>n + 1\<close> of them and the
  driver is rejected, with the error of the last.
\<close>

theorem retry_bound:
  assumes "0 \<le> n" and "retry n (logged executor) (s, []) = (r, s', tr)"
  shows "length tr \<le> nat n + 1 \<and> tr \<noteq> [] \<and> r = last tr \<and>
         (\<forall>x\<in>set (butlast tr). is_rejected x) \<and>
         ((\<forall>x\<in>set tr. is_rejected x) \<longrightarrow> length tr = nat n + 1 \<and> is_rejected r)"
  using retry_log [OF assms(2)] by auto

theorem retry_bound_witness:
  "(0::int) \<le> 2 \<and>
   retry 2 (logged fails_twice) (0, [])
     = (Resolved ''third'', 3, [Rejected ''first'', Rejected ''second'', Resolved ''third'']) \<and>
   length [Rejected ''first'', Rejected ''second'', Resolved ''third'' :: (string, string) promise]
     \<le> nat 2 + 1 \<and>
   Resolved ''third''
     = last [Rejected ''first'', Rejected ''second'', Resolved ''third'' :: (string, string) promise]"
  using retry_bound [of 2 fails_twice 0 "Resolved ''third''" 3
      "[Rejected ''first'', Rejected ''second'', Resolved ''third'']"]
  by (simp add: retry.simps logged_def fails_twice_def)

section \<open>Evaluating the handler\<close>

lemmas handler_eval = handler_def lookups_def try_body_def generation_def generation_attempt_def
  parse_api_key_def payloadSchema_def parse_def is_allowed_key_def unauthorized_def
  example_env_def example_world_def example_key_def example_body_def scripted_def
  retry.simps Let_def synth_eval under_def

lemma example_key_ok: "parse_api_key example_key = Inr ''0123456789abcdef01234567''"
  by (simp add: parse_api_key_def example_key_def)

lemma example_user: "keys_single (example_env c) ''0123456789abcdef01234567'' = Inr (Some ''user-1'')"
  by (simp add: example_env_def)

lemma example_credits: "tokens_single (example_env c) ''user-1'' = Inr (Some c)"
  by (simp add: example_env_def)

lemma example_payload: "parse payloadSchema example_body = Inr example_body"
  by (simp add: example_body_def parse_def payloadSchema_def is_allowed_key_def)

lemma example_estimate:
  "usedTokens (example_env c) (get_prop example_body ''input'') (get_prop example_body ''format'')
     = 100"
  by (simp add: example_env_def)

section \<open>The metering gate\<close>

lemma generation_not_denied:
  "fst (generation env user_id credits format w) \<noteq> Inr (unauthorized message)"
  by (auto simp: generation_def unauthorized_def split: sum.splits prod.splits promise.splits)

text \<open>
  C1: for a request that reaches the metering check (valid key header, key and credit
  rows found, well-formed body) with balance \<open>b\<close> and estimate \<open>e\<close>, the handler answers
  with the insufficient-credits denial exactly when \<open>b \<le> e\<close>, leaving the world as it
  was; when \<open>b > e\<close> it goes on to the generation, and the answer is what the generation
  gives.
\<close>

theorem metering_gate:
  assumes "parse_api_key header = Inr apiToken"
    and "keys_single env apiToken = Inr (Some user_id)"
    and "tokens_single env user_id = Inr (Some (Finite b))"
    and "parse payloadSchema body = Inr payload"
    and "e = usedTokens env (get_prop payload ''input'') (get_prop payload ''format'')"
  shows "(fst (handler env header (Inr body) w)
            = unauthorized ''Unauthorized: Not enough credits available.'' \<longleftrightarrow> b \<le> real_of_int e) \<and>
         (b \<le> real_of_int e \<longrightarrow> snd (handler env header (Inr body) w) = w) \<and>
         (real_of_int e < b \<longrightarrow>
            handler env header (Inr body) w =
              (case generation env user_id (Finite b) (get_prop payload ''format'') w of
                 (Inl thrown, w') \<Rightarrow> (NoResponse, w')
               | (Inr r, w') \<Rightarrow> (r, w')))"
proof (cases "b \<le> real_of_int e")
  case True
  with assms show ?thesis
    by (simp add: handler_def lookups_def try_body_def Let_def)
next
  case False
  obtain r w' where g: "generation env user_id (Finite b) (get_prop payload ''format'') w = (r, w')"
    by (cases "generation env user_id (Finite b) (get_prop payload ''format'') w")
  with generation_not_denied [of env user_id "Finite b" "get_prop payload ''format''" w
      "''Unauthorized: Not enough credits available.''"]
  have "r \<noteq> Inr (unauthorized ''Unauthorized: Not enough credits available.'')" by simp
  with False assms g show ?thesis
    by (cases r) (auto simp: handler_def lookups_def try_body_def Let_def unauthorized_def)
qed

theorem metering_gate_witness:
  "parse_api_key example_key = Inr ''0123456789abcdef01234567'' \<and>
   keys_single (example_env (Finite 100)) ''0123456789abcdef01234567'' = Inr (Some ''user-1'') \<and>
   tokens_single (example_env (Finite 100)) ''user-1'' = Inr (Some (Finite 100)) \<and>
   tokens_single (example_env (Finite 101)) ''user-1'' = Inr (Some (Finite 101)) \<and>
   parse payloadSchema example_body = Inr example_body \<and>
   (100::int) = usedTokens (example_env (Finite 100)) (get_prop example_body ''input'')
      (get_prop example_body ''format'') \<and>
   fst (handler (example_env (Finite 100)) example_key (Inr example_body) (example_world []))
     = unauthorized ''Unauthorized: Not enough credits available.'' \<and>
   snd (handler (example_env (Finite 100)) example_key (Inr example_body) (example_world []))
     = example_world [] \<and>
   fst (handler (example_env (Finite 101)) example_key (Inr example_body) (example_world []))
     \<noteq> unauthorized ''Unauthorized: Not enough credits available.''"
proof -
  note h = example_key_ok example_user [of "Finite 100"] example_credits [of "Finite 100"]
    example_payload
  note h' = example_key_ok example_user [of "Finite 101"] example_credits [of "Finite 101"]
    example_payload
  from metering_gate [OF h example_estimate [of "Finite 100", symmetric], of "example_world []"]
  have deny: "fst (handler (example_env (Finite 100)) example_key (Inr example_body)
                (example_world []))
     = unauthorized ''Unauthorized: Not enough credits available.''"
    "snd (handler (example_env (Finite 100)) example_key (Inr example_body) (example_world []))
     = example_world []"
    by simp_all
  from metering_gate [OF h' example_estimate [of "Finite 101", symmetric], of "example_world []"]
  have "fst (handler (example_env (Finite 101)) example_key (Inr example_body) (example_world []))
          = unauthorized ''Unauthorized: Not enough credits available.''
        \<longleftrightarrow> (101::real) \<le> real_of_int 100"
    by (rule conjunct1)
  then have allow: "fst (handler (example_env (Finite 101)) example_key (Inr example_body)
                 (example_world []))
     \<noteq> unauthorized ''Unauthorized: Not enough credits available.''"
    by simp
  from deny allow h h' example_estimate [of "Finite 100"] show ?thesis by simp
qed

text \<open>
  C9: a request that the metering check denies (the balance, a number or \<^verbatim>\<open>NaN\<close>, is not
  above the estimate) is answered with status 401, and the world after the request is the
  world before it: no completion call was issued, no usage row and no credit update was
  written.
\<close>

theorem denied_request_changes_nothing:
  assumes "parse_api_key header = Inr apiToken"
    and "keys_single env apiToken = Inr (Some user_id)"
    and "tokens_single env user_id = Inr (Some credits)"
    and "parse payloadSchema body = Inr payload"
    and "\<not> js_gt credits (usedTokens env (get_prop payload ''input'') (get_prop payload ''format''))"
  shows "handler env header (Inr body) w
           = (Responds 401
                \<lparr>json_error = Message ''Unauthorized: Not enough credits available.'',
                   json_data = Null, json_tokensUsed = None\<rparr>, w)"
  using assms by (simp add: handler_def lookups_def try_body_def Let_def unauthorized_def)

theorem denied_request_changes_nothing_witness:
  "parse_api_key example_key = Inr ''0123456789abcdef01234567'' \<and>
   keys_single (example_env (Finite 99)) ''0123456789abcdef01234567'' = Inr (Some ''user-1'') \<and>
   tokens_single (example_env (Finite 99)) ''user-1'' = Inr (Some (Finite 99)) \<and>
   parse payloadSchema example_body = Inr example_body \<and>
   \<not> js_gt (Finite 99) (usedTokens (example_env (Finite 99)) (get_prop example_body ''input'')
      (get_prop example_body ''format'')) \<and>
   handler (example_env (Finite 99)) example_key (Inr example_body)
      (example_world [\<lparr>choices = [Some ''{name:null}''], usage = Some 7\<rparr>])
     = (Responds 401
          \<lparr>json_error = Message ''Unauthorized: Not enough credits available.'',
             json_data = Null, json_tokensUsed = None\<rparr>,
        \<lparr>generator = [\<lparr>choices = [Some ''{name:null}''], usage = Some 7\<rparr>],
           completions_created = 0, tokens_used_rows = [], credits_updates = []\<rparr>)"
proof -
  note h = example_key_ok example_user [of "Finite 99"] example_credits [of "Finite 99"]
    example_payload
  have gate: "\<not> js_gt (Finite 99) (usedTokens (example_env (Finite 99))
      (get_prop example_body ''input'') (get_prop example_body ''format''))"
    by (simp add: example_estimate)
  from denied_request_changes_nothing [OF h gate,
      of "example_world [\<lparr>choices = [Some ''{name:null}''], usage = Some 7\<rparr>]"]
  have "handler (example_env (Finite 99)) example_key (Inr example_body)
      (example_world [\<lparr>choices = [Some ''{name:null}''], usage = Some 7\<rparr>])
     = (Responds 401
          \<lparr>json_error = Message ''Unauthorized: Not enough credits available.'',
             json_data = Null, json_tokensUsed = None\<rparr>,
        \<lparr>generator = [\<lparr>choices = [Some ''{name:null}''], usage = Some 7\<rparr>],
           completions_created = 0, tokens_used_rows = [], credits_updates = []\<rparr>)"
    by (simp add: example_world_def)
  with h gate show ?thesis by simp
qed

section \<open>Usage attribution\<close>

lemma attempt_step:
  "generation_attempt env S (w, t) = (r, w1, t1) \<Longrightarrow>
     w1 = w\<lparr>generator := snd (create env (generator w)),
             completions_created := Suc (completions_created w)\<rparr> \<and>
     (r \<noteq> Pending \<longrightarrow> t1 = t + reported_tokens (fst (create env (generator w))))"
  by (auto simp: generation_attempt_def reported_tokens_def Let_def
           split: prod.splits sum.splits list.splits option.splits if_splits)

lemma retry_1_resolved:
  "retry 1 ex s = (Resolved v, s2) \<Longrightarrow>
     ex s = (Resolved v, s2) \<or> (\<exists>e s1. ex s = (Rejected e, s1) \<and> ex s1 = (Resolved v, s2))"
  by (auto simp: retry.simps [of 1] retry.simps [of 0] split: prod.splits promise.splits)

lemma handler_200:
  assumes "handler env header json w = (Responds 200 b, w')"
  shows "\<exists>apiToken user_id credits format.
           parse_api_key header = Inr apiToken \<and>
           keys_single env apiToken = Inr (Some user_id) \<and>
           generation env user_id credits format w = (Inr (Responds 200 b), w')"
proof -
  from assms obtain apiToken where key: "parse_api_key header = Inr apiToken"
    by (auto simp: handler_def unauthorized_def split: sum.splits)
  with assms have l: "lookups env apiToken json w = (Inr (Responds 200 b), w')"
    by (auto simp: handler_def unauthorized_def issues_catch_def
             split: sum.splits prod.splits js_error.splits)
  then obtain user_id credits where u: "keys_single env apiToken = Inr (Some user_id)"
    and t: "try_body env json user_id credits w = (Inr (Responds 200 b), w')"
    by (auto simp: lookups_def unauthorized_def split: sum.splits option.splits prod.splits)
  from t obtain format where "generation env user_id credits format w = (Inr (Responds 200 b), w')"
    by (auto simp: try_body_def unauthorized_def Let_def split: sum.splits if_splits)
  with key u show ?thesis by blast
qed

lemma generation_200:
  assumes "generation env user_id credits format w = (Inr (Responds 200 b), w')"
  shows "let N = completions_created w' - completions_created w;
             total = sum_list (map reported_tokens (replies (create env) (generator w) N))
         in 1 \<le> N \<and> N \<le> 2 \<and> tokens_used_rows w' = tokens_used_rows w @ [(total, user_id)] \<and>
            json_tokensUsed b = Some total"
proof -
  from assms obtain S v w1 t where S: "generateDynamicSchema format = Inr S"
    and r: "retry 1 (generation_attempt env S) (w, 0) = (Resolved v, w1, t)"
    and b: "b = \<lparr>json_error = NoError, json_data = v, json_tokensUsed = Some t\<rparr>"
    and w': "w' = w1\<lparr>tokens_used_rows := tokens_used_rows w1 @ [(t, user_id)],
                     credits_updates := credits_updates w1 @ [(user_id, credits, t)]\<rparr>"
    by (auto simp: generation_def split: sum.splits prod.splits promise.splits)
  obtain r1 g1 where c1: "create env (generator w) = (r1, g1)" by (cases "create env (generator w)")
  from retry_1_resolved [OF r] show ?thesis
  proof
    assume "generation_attempt env S (w, 0) = (Resolved v, w1, t)"
    from attempt_step [OF this] c1 b w' show ?thesis by (simp add: Let_def)
  next
    assume "\<exists>e s1. generation_attempt env S (w, 0) = (Rejected e, s1) \<and>
                   generation_attempt env S s1 = (Resolved v, w1, t)"
    then obtain e wa ta where a1: "generation_attempt env S (w, 0) = (Rejected e, wa, ta)"
      and a2: "generation_attempt env S (wa, ta) = (Resolved v, w1, t)"
      by (metis prod.exhaust)
    obtain r2 g2 where c2: "create env g1 = (r2, g2)" by (cases "create env g1")
    from attempt_step [OF a1] attempt_step [OF a2] c1 c2 b w' show ?thesis
      by (simp add: Let_def numeral_2_eq_2)
  qed
qed

text \<open>
  C7, as stated, fails: a usage row is written only after the driver has resolved. In a
  run of two attempts that both fail (here neither answer is JSON) the responses report
  10 and 20 tokens, and the request ends without an answer and without any usage row.
\<close>

theorem exhausted_retries_counterexample:
  "handler (example_env (Finite 1000)) example_key (Inr example_body)
     (example_world [\<lparr>choices = [Some ''not json''], usage = Some 10\<rparr>,
                     \<lparr>choices = [Some ''still not json''], usage = Some 20\<rparr>])
   = (NoResponse,
      \<lparr>generator = [], completions_created = 2, tokens_used_rows = [], credits_updates = []\<rparr>)"
  by (simp add: handler_eval)

text \<open>
  C7, amended: for every request that is answered with status 200, that is whose
  generation succeeded, after \<open>N\<close> attempts (one or two), exactly one usage row was
  written, for the caller, and its token count, which is also the count in the answer, is
  the sum of the token counts reported by the responses of all \<open>N\<close> attempts.
\<close>

theorem usage_recorded_once:
  assumes "handler env header json w = (Responds 200 b, w')"
  shows "\<exists>apiToken user_id.
           parse_api_key header = Inr apiToken \<and> keys_single env apiToken = Inr (Some user_id) \<and>
           (let N = completions_created w' - completions_created w;
                total = sum_list (map reported_tokens (replies (create env) (generator w) N))
            in 1 \<le> N \<and> N \<le> 2 \<and> tokens_used_rows w' = tokens_used_rows w @ [(total, user_id)] \<and>
               json_tokensUsed b = Some total)"
  using handler_200 [OF assms] generation_200 by blast


theorem usage_recorded_once_witness:
  "handler (example_env (Finite 1000)) example_key (Inr example_body)
     (example_world [\<lparr>choices = [Some ''not json''], usage = Some 10\<rparr>,
                     \<lparr>choices = [Some ''{name:null}''], usage = Some 20\<rparr>])
   = (Responds 200
        \<lparr>json_error = NoError, json_data = Obj [(''name'', Null)], json_tokensUsed = Some 30\<rparr>,
      \<lparr>generator = [], completions_created = 2, tokens_used_rows = [(30, ''user-1'')],
         credits_updates = [(''user-1'', Finite 1000, 30)]\<rparr>) \<and>
   sum_list (map reported_tokens
     (replies scripted [\<lparr>choices = [Some ''not json''], usage = Some 10\<rparr>,
                        \<lparr>choices = [Some ''{name:null}''], usage = Some 20\<rparr>] 2)) = 30"
proof -
  have run: "handler (example_env (Finite 1000)) example_key (Inr example_body)
     (example_world [\<lparr>choices = [Some ''not json''], usage = Some 10\<rparr>,
                     \<lparr>choices = [Some ''{name:null}''], usage = Some 20\<rparr>])
   = (Responds 200
        \<lparr>json_error = NoError, json_data = Obj [(''name'', Null)], json_tokensUsed = Some 30\<rparr>,
      \<lparr>generator = [], completions_created = 2, tokens_used_rows = [(30, ''user-1'')],
         credits_updates = [(''user-1'', Finite 1000, 30)]\<rparr>)"
    by (simp add: handler_eval)
  from usage_recorded_once [OF run]
  have "sum_list (map reported_tokens
     (replies scripted [\<lparr>choices = [Some ''not json''], usage = Some 10\<rparr>,
                        \<lparr>choices = [Some ''{name:null}''], usage = Some 20\<rparr>] 2)) = 30"
    by (simp add: example_env_def example_world_def Let_def)
  with run show ?thesis by simp
qed

section \<open>Failures that the driver does not see\<close>

text \<open>A failed call of the generator leaves the driver pending, whatever the budget.\<close>

lemma transport_failure_pending:
  "create env (generator w) = (Inl e, g) \<Longrightarrow>
   retry n (generation_attempt env S) (w, t)
     = (Pending, w\<lparr>generator := g, completions_created := Suc (completions_created w)\<rparr>, t)"
  by (simp add: retry.simps [of n] generation_attempt_def)

text \<open>
  C3 does not hold of the code. When the call of the generator throws (here: the script
  of the generator is empty), the executor calls neither \<^verbatim>\<open>resolve\<close> nor \<^verbatim>\<open>reject\<close>:
  with a budget of one retry the driver invokes the executor once, the outcome is a
  pending promise, there is no second invocation and no rejection, and the handler never
  answers.
\<close>

theorem transport_failure_never_settles:
  "retry 1 (logged (generation_attempt (example_env (Finite 1000))
              (SObject [(''name'', SNullable SString)])))
     ((example_world [], 0), [])
   = (Pending,
      (\<lparr>generator = [], completions_created = 1, tokens_used_rows = [], credits_updates = []\<rparr>, 0),
      [Pending]) \<and>
   handler (example_env (Finite 1000)) example_key (Inr example_body) (example_world [])
   = (NeverSettles,
      \<lparr>generator = [], completions_created = 1, tokens_used_rows = [], credits_updates = []\<rparr>)"
  by (simp add: handler_eval logged_def)

section \<open>A malformed body\<close>

text \<open>
  Whatever the innermost \<^verbatim>\<open>try\<close> throws is dropped by its empty \<^verbatim>\<open>catch\<close>: a body that
  the payload schema rejects, or that is not JSON, ends the request without an answer.
\<close>

lemma invalid_payload_no_response:
  assumes "parse_api_key header = Inr apiToken"
    and "keys_single env apiToken = Inr (Some user_id)"
    and "tokens_single env user_id = Inr (Some credits)"
    and "json = Inl e \<or> (\<exists>body e'. json = Inr body \<and> parse payloadSchema body = Inl e')"
  shows "handler env header json w = (NoResponse, w)"
  using assms by (auto simp: handler_def lookups_def try_body_def)

text \<open>
  C8 does not hold of the code. For the body \<^verbatim>\<open>{}\<close>, with a valid key and a credit row,
  the payload schema reports an issue for \<^verbatim>\<open>input\<close> and one for \<^verbatim>\<open>format\<close>; the
  middle \<^verbatim>\<open>catch\<close> would turn this error into the 400 answer with one entry per field,
  but the error never reaches it, and the handler returns without an answer.
\<close>

theorem invalid_body_unanswered:
  "parse payloadSchema (Obj [])
     = Inl (ValiError [Issue [Key ''input''] ''string'' Undefined,
                       Issue [Key ''format''] ''Object'' Undefined]) \<and>
   issues_catch (ValiError [Issue [Key ''input''] ''string'' Undefined,
                            Issue [Key ''format''] ''Object'' Undefined])
     = Inr (Responds 400
         \<lparr>json_error = Issues [(''input'', Issue [Key ''input''] ''string'' Undefined),
                                (''format'', Issue [Key ''format''] ''Object'' Undefined)],
            json_data = Null, json_tokensUsed = None\<rparr>) \<and>
   handler (example_env (Finite 1000)) example_key (Inr (Obj [])) (example_world [])
     = (NoResponse, example_world [])"
  by (simp add: handler_eval issues_catch_def)

end
